theory Spec2Isabelle
  imports Main
begin

section \<open>The write-behind appointment cache of the scheduling server\<close>

text \<open>
  The development embeds \<^verbatim>\<open>CacheService\<close> (the second module of
  \<^verbatim>\<open>src/server/services/availity.service.ts\<close>), the table declarations it
  writes to (\<^verbatim>\<open>appointments\<close> and \<^verbatim>\<open>appointment_cache\<close> of the schema
  module) and the primary write of the \<^verbatim>\<open>/book-appointment\<close> route.

  The database is an explicit state. A table is the list of its rows in scan order; an
  \<^verbatim>\<open>UPDATE ... WHERE\<close> rewrites the matching rows in place, an \<^verbatim>\<open>INSERT\<close>
  appends one row and draws its \<^verbatim>\<open>serial\<close> key from a counter. Everything that can
  throw inside the \<^verbatim>\<open>try\<close> block of \<^verbatim>\<open>syncSingleAppointment\<close> is a branch of
  the model: \<^verbatim>\<open>JSON.parse\<close>, the downstream call, and the update of the
  \<^verbatim>\<open>appointments\<close> table. The statements on the \<^verbatim>\<open>appointment_cache\<close> table
  itself are taken to execute (the local store is available).
  \<^verbatim>\<open>syncPendingAppointments\<close> as a function is one run of the worker with no other
  writer in between; the reachable states further down interleave the steps of several
  runs with each other and with the request handlers.
\<close>

subsection \<open>Values of the host language\<close>

type_synonym timestamp = int

text \<open>A thrown value, with its \<^verbatim>\<open>message\<close> property (\<open>None\<close> when it has none).\<close>

datatype thrown = Thrown (message: "string option")

text \<open>
  An object as the downstream client returns it (\<^verbatim>\<open>response.data\<close>, not validated at
  run time): its properties by name. Reading a property that the object does not have
  gives \<^verbatim>\<open>undefined\<close>, here \<open>None\<close>.
\<close>

type_synonym js_object = "(string \<times> string) list"

definition property :: "js_object \<Rightarrow> string \<Rightarrow> string option" where
  "property obj name = map_of obj name"

text \<open>
  \<^verbatim>\<open>interface IntakeQAppointment\<close>: the shape the client promises for the result of
  \<^verbatim>\<open>createAppointment\<close>. The identifier is the property \<^verbatim>\<open>Id\<close>.
\<close>

record IntakeQAppointment =
  Id :: string
  ClientId :: string
  ProviderId :: string
  DateTime :: string
  Duration :: string
  ServiceName :: string
  Status :: string

definition as_object :: "IntakeQAppointment \<Rightarrow> js_object" where
  "as_object a =
     [(''Id'', Id a), (''ClientId'', ClientId a), (''ProviderId'', ProviderId a),
      (''DateTime'', DateTime a), (''Duration'', Duration a),
      (''ServiceName'', ServiceName a), (''Status'', Status a)]"

text \<open>\<^verbatim>\<open>error.message || 'Unknown error'\<close>: a missing or empty message is falsy.\<close>

definition message_or_unknown :: "thrown \<Rightarrow> string" where
  "message_or_unknown error =
     (case message error of
        None \<Rightarrow> ''Unknown error''
      | Some m \<Rightarrow> if m = [] then ''Unknown error'' else m)"

text \<open>
  \<^verbatim>\<open>entry.retryCount + 1\<close> on a nullable integer column: \<^verbatim>\<open>null\<close> counts as 0 in
  an addition.
\<close>

definition to_number :: "int option \<Rightarrow> int" where
  "to_number v = (case v of None \<Rightarrow> 0 | Some n \<Rightarrow> n)"

subsection \<open>Tables\<close>

datatype sync_status = Pending | Synced | Failed

text \<open>The columns of \<^verbatim>\<open>appointments\<close> that the queue reads or writes.\<close>

record appointment =
  appointment_id :: nat
  intakeqId :: "string option"

text \<open>
  \<^verbatim>\<open>appointment_cache\<close>. Only \<^verbatim>\<open>id\<close>, \<^verbatim>\<open>appointment_id\<close> and \<^verbatim>\<open>payload\<close>
  are declared not null; the other columns are nullable, some with a default.
\<close>

record appointmentCache =
  cache_id :: nat
  appointmentId :: nat
  syncStatus :: "sync_status option"
  retryCount :: "int option"
  lastSyncAttempt :: "timestamp option"
  errorMessage :: "string option"
  payload :: string
  createdAt :: "timestamp option"
  syncedAt :: "timestamp option"

record db =
  appointments :: "appointment list"
  appointments_seq :: nat
  cache :: "appointmentCache list"
  cache_seq :: nat

definition empty_db :: db where
  "empty_db = \<lparr>appointments = [], appointments_seq = 1, cache = [], cache_seq = 1\<rparr>"

text \<open>\<^verbatim>\<open>db.update(schema.appointmentCache).set(...).where(eq(id, i))\<close>\<close>

definition update_cache_where_id ::
  "nat \<Rightarrow> (appointmentCache \<Rightarrow> appointmentCache) \<Rightarrow> db \<Rightarrow> db" where
  "update_cache_where_id i set_columns d =
     d\<lparr>cache := map (\<lambda>r. if cache_id r = i then set_columns r else r) (cache d)\<rparr>"

text \<open>
  \<^verbatim>\<open>db.update(schema.appointments).set({ intakeqId: v }).where(eq(id, i))\<close>. A value
  of \<^verbatim>\<open>undefined\<close> is left out of the \<^verbatim>\<open>SET\<close> list by the query builder, so the
  column keeps its content. The statement throws when the environment says so (the store
  rejects it, or the query builder refuses a \<^verbatim>\<open>SET\<close> list left empty).
\<close>

definition update_appointments_intakeqId ::
  "thrown option \<Rightarrow> string option \<Rightarrow> nat \<Rightarrow> db \<Rightarrow> thrown + db" where
  "update_appointments_intakeqId throws v i d =
     (case throws of
        Some error \<Rightarrow> Inl error
      | None \<Rightarrow>
          Inr (d\<lparr>appointments :=
                 map (\<lambda>a. if appointment_id a = i
                           then (case v of None \<Rightarrow> a | Some s \<Rightarrow> a\<lparr>intakeqId := Some s\<rparr>)
                           else a)
                     (appointments d)\<rparr>))"

subsection \<open>The booking route's primary write and the enqueue operation\<close>

text \<open>
  \<^verbatim>\<open>db.insert(schema.appointments).values({...}).returning()\<close> of the
  \<^verbatim>\<open>/book-appointment\<close> route: a new row with a fresh key and no downstream
  identifier yet.
\<close>

definition insertAppointment :: "db \<Rightarrow> appointment \<times> db" where
  "insertAppointment d =
     (let a = \<lparr>appointment_id = appointments_seq d, intakeqId = None\<rparr>
      in (a, d\<lparr>appointments := appointments d @ [a],
               appointments_seq := appointments_seq d + 1\<rparr>))"

text \<open>
  \<^verbatim>\<open>cacheAppointment(appointmentId, payload)\<close>: one \<^verbatim>\<open>INSERT\<close>. The store
  rejects it when \<^verbatim>\<open>JSON.stringify\<close> gave no text for the not-null column
  \<^verbatim>\<open>payload\<close>, or when \<^verbatim>\<open>appointment_id\<close> references no appointment. The
  serialiser is a parameter; \<open>t\<close> is the store's clock for \<^verbatim>\<open>defaultNow()\<close>.
\<close>

definition cacheAppointment ::
  "('p \<Rightarrow> string option) \<Rightarrow> timestamp \<Rightarrow> nat \<Rightarrow> 'p \<Rightarrow> db \<Rightarrow> thrown + db" where
  "cacheAppointment JSON_stringify t appointmentId' payload' d =
     (case JSON_stringify payload' of
        None \<Rightarrow> Inl (Thrown (Some ''null value in column payload''))
      | Some text \<Rightarrow>
          if appointmentId' \<notin> set (map appointment_id (appointments d))
          then Inl (Thrown (Some ''foreign key violation on appointment_id''))
          else Inr (d\<lparr>cache := cache d @
                         [\<lparr>cache_id = cache_seq d,
                           appointmentId = appointmentId',
                           syncStatus = Some Pending,
                           retryCount = Some 0,
                           lastSyncAttempt = None,
                           errorMessage = None,
                           payload = text,
                           createdAt = Some t,
                           syncedAt = None\<rparr>],
                       cache_seq := cache_seq d + 1\<rparr>))"

text \<open>
  The two writes of the route, one after the other. The checks of the request body that
  precede them are not part of the model.
\<close>

definition bookAppointment ::
  "('p \<Rightarrow> string option) \<Rightarrow> timestamp \<Rightarrow> 'p \<Rightarrow> db \<Rightarrow> thrown + db" where
  "bookAppointment JSON_stringify t payload' d =
     (let (a, d1) = insertAppointment d
      in cacheAppointment JSON_stringify t (appointment_id a) payload' d1)"

subsection \<open>The downstream client\<close>

text \<open>
  \<^verbatim>\<open>IntakeQService.createAppointment\<close>: the HTTP call is a parameter. Whatever it
  throws is replaced by one fixed error; its answer is handed on as it came.
\<close>

definition IntakeQService_createAppointment ::
  "('p \<Rightarrow> thrown + js_object) \<Rightarrow> 'p \<Rightarrow> thrown + js_object" where
  "IntakeQService_createAppointment api_post appointmentData =
     (case api_post appointmentData of
        Inl error \<Rightarrow> Inl (Thrown (Some ''Failed to create appointment in IntakeQ''))
      | Inr data \<Rightarrow> Inr data)"

subsection \<open>The sync worker\<close>

text \<open>
  What the world outside the store does during one call of
  \<^verbatim>\<open>syncSingleAppointment\<close>: how the payload parses, what the downstream client
  answers, whether the update of \<^verbatim>\<open>appointments\<close> throws, and the clock.
\<close>

record 'p attempt =
  JSON_parse :: "string \<Rightarrow> thrown + 'p"
  createAppointment :: "'p \<Rightarrow> thrown + js_object"
  appointments_update_throws :: "thrown option"
  now :: timestamp

text \<open>The body of the \<^verbatim>\<open>try\<close> block; \<open>Inl\<close> is the value thrown.\<close>

definition try_block :: "'p attempt \<Rightarrow> appointmentCache \<Rightarrow> db \<Rightarrow> thrown + db" where
  "try_block w entry d =
     (case JSON_parse w (payload entry) of
        Inl error \<Rightarrow> Inl error
      | Inr payload' \<Rightarrow>
          (case createAppointment w payload' of
             Inl error \<Rightarrow> Inl error
           | Inr response \<Rightarrow>
               (case update_appointments_intakeqId (appointments_update_throws w)
                       (property response ''id'') (appointmentId entry) d of
                  Inl error \<Rightarrow> Inl error
                | Inr d1 \<Rightarrow>
                    Inr (update_cache_where_id (cache_id entry)
                           (\<lambda>r. r\<lparr>syncStatus := Some Synced, syncedAt := Some (now w)\<rparr>)
                           d1))))"

text \<open>The body of the \<^verbatim>\<open>catch\<close> block.\<close>

definition catch_block :: "'p attempt \<Rightarrow> appointmentCache \<Rightarrow> thrown \<Rightarrow> db \<Rightarrow> db" where
  "catch_block w entry error d =
     (let newRetryCount = to_number (retryCount entry) + 1;
          maxRetries = 5
      in if newRetryCount \<ge> maxRetries
         then update_cache_where_id (cache_id entry)
                (\<lambda>r. r\<lparr>syncStatus := Some Failed,
                        retryCount := Some newRetryCount,
                        lastSyncAttempt := Some (now w),
                        errorMessage := Some (message_or_unknown error)\<rparr>) d
         else update_cache_where_id (cache_id entry)
                (\<lambda>r. r\<lparr>retryCount := Some newRetryCount,
                        lastSyncAttempt := Some (now w),
                        errorMessage := Some (message_or_unknown error)\<rparr>) d)"

definition syncSingleAppointment :: "'p attempt \<Rightarrow> appointmentCache \<Rightarrow> db \<Rightarrow> db" where
  "syncSingleAppointment w entry d =
     (case try_block w entry d of
        Inr d' \<Rightarrow> d'
      | Inl error \<Rightarrow> catch_block w entry error d)"

text \<open>
  The \<^verbatim>\<open>SELECT ... WHERE sync_status = 'pending' LIMIT 10\<close> of the cycle. A row
  whose status is null does not match.
\<close>

definition pendingEntries :: "db \<Rightarrow> appointmentCache list" where
  "pendingEntries d = take 10 (filter (\<lambda>r. syncStatus r = Some Pending) (cache d))"

text \<open>
  The \<^verbatim>\<open>for ... of\<close> loop. Each entry is the row as it was read by the select; the
  world of its attempt is looked up by the entry.
\<close>

fun for_entries ::
  "(appointmentCache \<Rightarrow> 'p attempt) \<Rightarrow> appointmentCache list \<Rightarrow> db \<Rightarrow> db" where
  "for_entries world [] d = d"
| "for_entries world (entry # rest) d =
     for_entries world rest (syncSingleAppointment (world entry) entry d)"

definition syncPendingAppointments :: "(appointmentCache \<Rightarrow> 'p attempt) \<Rightarrow> db \<Rightarrow> db" where
  "syncPendingAppointments world d =
     (let entries = pendingEntries d
      in if length entries = 0 then d else for_entries world entries d)"

subsection \<open>The administrative reset\<close>

definition retryFailedSyncs :: "db \<Rightarrow> db" where
  "retryFailedSyncs d =
     d\<lparr>cache := map (\<lambda>r. if syncStatus r = Some Failed
                           then r\<lparr>syncStatus := Some Pending,
                                  retryCount := Some 0,
                                  errorMessage := None\<rparr>
                           else r)
                    (cache d)\<rparr>"

subsection \<open>States the service can reach\<close>

text \<open>
  A state is the store together with the runs of \<^verbatim>\<open>syncPendingAppointments\<close> in
  flight: for each run the entries it has selected and not yet processed (a finished run
  has none left). The request handlers run between the steps of the runs: the primary
  write and the enqueue of the booking route, and the administrative reset. The timer of
  \<^verbatim>\<open>startSyncJob\<close> starts a run on every tick, whether or not the earlier runs have
  finished, so a step may belong to any run in flight. The flag \<open>overlap\<close> tells
  whether such schedules are admitted; without it a run starts only when every earlier
  run has processed all its entries.
\<close>

inductive reachable ::
  "bool \<Rightarrow> ('p \<Rightarrow> string option) \<Rightarrow> db \<times> appointmentCache list list \<Rightarrow> bool"
  for overlap :: bool and JSON_stringify :: "'p \<Rightarrow> string option" where
  start: "reachable overlap JSON_stringify (empty_db, [])"
| primary: "reachable overlap JSON_stringify (d, runs) \<Longrightarrow>
            reachable overlap JSON_stringify (snd (insertAppointment d), runs)"
| enqueue: "reachable overlap JSON_stringify (d, runs) \<Longrightarrow>
            cacheAppointment JSON_stringify t i p d = Inr d' \<Longrightarrow>
            reachable overlap JSON_stringify (d', runs)"
| select: "reachable overlap JSON_stringify (d, runs) \<Longrightarrow>
           overlap \<or> concat runs = [] \<Longrightarrow>
           reachable overlap JSON_stringify (d, pendingEntries d # runs)"
| step: "reachable overlap JSON_stringify (d, earlier @ (entry # todo) # later) \<Longrightarrow>
         reachable overlap JSON_stringify
           (syncSingleAppointment (w :: 'p attempt) entry d, earlier @ todo # later)"
| reset: "reachable overlap JSON_stringify (d, runs) \<Longrightarrow>
          reachable overlap JSON_stringify (retryFailedSyncs d, runs)"

subsection \<open>Auxiliary notions for the proofs\<close>

text \<open>
  What one attempt does to the row it was started for: the columns written by the
  \<^verbatim>\<open>try\<close> block when nothing throws, those written by the \<^verbatim>\<open>catch\<close>
  block otherwise. Lemma \<open>syncSingleAppointment_cache\<close> relates it to the code.
\<close>

definition attempt_throws :: "'p attempt \<Rightarrow> appointmentCache \<Rightarrow> thrown option" where
  "attempt_throws w entry =
     (case JSON_parse w (payload entry) of
        Inl error \<Rightarrow> Some error
      | Inr payload' \<Rightarrow>
          (case createAppointment w payload' of
             Inl error \<Rightarrow> Some error
           | Inr response \<Rightarrow> appointments_update_throws w))"

definition row_written :: "'p attempt \<Rightarrow> appointmentCache \<Rightarrow> appointmentCache \<Rightarrow> appointmentCache" where
  "row_written w entry r =
     (case attempt_throws w entry of
        None \<Rightarrow> r\<lparr>syncStatus := Some Synced, syncedAt := Some (now w)\<rparr>
      | Some error \<Rightarrow>
          if to_number (retryCount entry) + 1 \<ge> 5
          then r\<lparr>syncStatus := Some Failed,
                 retryCount := Some (to_number (retryCount entry) + 1),
                 lastSyncAttempt := Some (now w),
                 errorMessage := Some (message_or_unknown error)\<rparr>
          else r\<lparr>retryCount := Some (to_number (retryCount entry) + 1),
                 lastSyncAttempt := Some (now w),
                 errorMessage := Some (message_or_unknown error)\<rparr>)"

text \<open>The shape of the rows that the three operations maintain.\<close>

definition row_ok :: "appointmentCache \<Rightarrow> bool" where
  "row_ok r =
     (case syncStatus r of
        None \<Rightarrow> False
      | Some Pending \<Rightarrow> (case retryCount r of None \<Rightarrow> False | Some n \<Rightarrow> n < 5)
      | Some Synced \<Rightarrow> True
      | Some Failed \<Rightarrow> retryCount r = Some 5)"

definition store_ok :: "db \<Rightarrow> bool" where
  "store_ok d \<longleftrightarrow>
     distinct (map cache_id (cache d)) \<and>
     (\<forall>r \<in> set (cache d). cache_id r < cache_seq d \<and> row_ok r)"

definition cycle_ok :: "db \<Rightarrow> appointmentCache list \<Rightarrow> bool" where
  "cycle_ok d todo \<longleftrightarrow>
     store_ok d \<and> distinct (map cache_id todo) \<and>
     (\<forall>e \<in> set todo. e \<in> set (cache d) \<and> syncStatus e = Some Pending)"

text \<open>
  What remains true of the rows, and of the entries held by the runs in flight, when runs
  overlap.
\<close>

definition row_within :: "appointmentCache \<Rightarrow> bool" where
  "row_within r =
     (case syncStatus r of
        None \<Rightarrow> False
      | Some st \<Rightarrow>
          (case retryCount r of
             None \<Rightarrow> False
           | Some n \<Rightarrow>
               (case st of
                  Pending \<Rightarrow> 0 \<le> n \<and> n < 5
                | Synced \<Rightarrow> True
                | Failed \<Rightarrow> 1 \<le> n \<and> n \<le> 5)))"

definition snapshot_ok :: "appointmentCache \<Rightarrow> bool" where
  "snapshot_ok e =
     (syncStatus e = Some Pending \<and>
      (case retryCount e of None \<Rightarrow> False | Some n \<Rightarrow> 0 \<le> n \<and> n < 5))"

definition runs_within :: "db \<Rightarrow> appointmentCache list list \<Rightarrow> bool" where
  "runs_within d runs \<longleftrightarrow>
     (\<forall>r \<in> set (cache d). row_within r) \<and> (\<forall>e \<in> set (concat runs). snapshot_ok e)"

subsection \<open>Sample environments\<close>

text \<open>
  Concrete surroundings on which the theorems below are run: payloads that are already
  text, an endpoint that refuses every request, one that answers with a given object,
  and attempts built from them.
\<close>

definition refusing :: "string \<Rightarrow> thrown + js_object" where
  "refusing appointmentData = Inl (Thrown (Some ''Request failed with status code 503''))"

definition answering :: "js_object \<Rightarrow> string \<Rightarrow> thrown + js_object" where
  "answering data appointmentData = Inr data"

definition failing_attempt :: "timestamp \<Rightarrow> string attempt" where
  "failing_attempt t =
     \<lparr>JSON_parse = Inr,
      createAppointment = IntakeQService_createAppointment refusing,
      appointments_update_throws = None,
      now = t\<rparr>"

definition succeeding_attempt :: "js_object \<Rightarrow> timestamp \<Rightarrow> string attempt" where
  "succeeding_attempt data t =
     \<lparr>JSON_parse = Inr,
      createAppointment = IntakeQService_createAppointment (answering data),
      appointments_update_throws = None,
      now = t\<rparr>"


definition empty_set_attempt :: "js_object \<Rightarrow> timestamp \<Rightarrow> string attempt" where
  "empty_set_attempt data t =
     \<lparr>JSON_parse = Inr,
      createAppointment = IntakeQService_createAppointment (answering data),
      appointments_update_throws = Some (Thrown (Some ''No values to set'')),
      now = t\<rparr>"

definition always_failing :: "appointmentCache \<Rightarrow> string attempt" where
  "always_failing entry = failing_attempt 100"




definition sample_appointment :: IntakeQAppointment where
  "sample_appointment =
     \<lparr>Id = ''apt-77'', ClientId = ''7'', ProviderId = ''3'',
      DateTime = ''2025-01-06T10:30:00Z'', Duration = ''60'',
      ServiceName = ''follow up'', Status = ''Confirmed''\<rparr>"

definition sample_row :: "nat \<Rightarrow> sync_status \<Rightarrow> int \<Rightarrow> appointmentCache" where
  "sample_row i st n =
     \<lparr>cache_id = i, appointmentId = i, syncStatus = Some st, retryCount = Some n,
      lastSyncAttempt = None, errorMessage = None, payload = ''{}'',
      createdAt = Some 0, syncedAt = None\<rparr>"

definition failed_twice :: appointmentCache where
  "failed_twice =
     (sample_row 1 Pending 2)
       \<lparr>lastSyncAttempt := Some 100,
        errorMessage := Some ''Failed to create appointment in IntakeQ''\<rparr>"

definition twelve_pending :: "appointmentCache list" where
  "twelve_pending = map (\<lambda>i. sample_row i Pending 4) [1, 2, 3, 4, 5, 6, 7, 8, 9, 10, 11, 12]"

definition sample_db :: "appointmentCache list \<Rightarrow> db" where
  "sample_db rows =
     \<lparr>appointments = [\<lparr>appointment_id = 1, intakeqId = None\<rparr>,
                       \<lparr>appointment_id = 2, intakeqId = None\<rparr>],
      appointments_seq = 3, cache = rows, cache_seq = 3\<rparr>"

text \<open>The store after one booking, and after five cycles during which the endpoint is down.\<close>

definition booked :: db where
  "booked =
     \<lparr>appointments = [\<lparr>appointment_id = 1, intakeqId = None\<rparr>], appointments_seq = 2,
      cache = [\<lparr>cache_id = 1, appointmentId = 1, syncStatus = Some Pending,
                retryCount = Some 0, lastSyncAttempt = None, errorMessage = None,
                payload = ''{}'', createdAt = Some 0, syncedAt = None\<rparr>],
      cache_seq = 2\<rparr>"

definition exhausted :: db where
  "exhausted =
     syncPendingAppointments always_failing
       (syncPendingAppointments always_failing
         (syncPendingAppointments always_failing
           (syncPendingAppointments always_failing
             (syncPendingAppointments always_failing booked))))"

text \<open>
  The task of that booking after \<open>n\<close> failures; the store after three cycles during which
  the endpoint is down; and the same store after three runs that overlap: the first run
  selects the task and hangs, the second selects it too and fails, the third selects it
  and fails for the fifth time, and then the first run fails with the entry it had read.
\<close>

definition failed_so_far :: "int \<Rightarrow> appointmentCache" where
  "failed_so_far n =
     (sample_row 1 Pending n)
       \<lparr>lastSyncAttempt := Some 100,
        errorMessage := Some ''Failed to create appointment in IntakeQ''\<rparr>"

definition three_failures :: db where
  "three_failures =
     syncPendingAppointments always_failing
       (syncPendingAppointments always_failing
         (syncPendingAppointments always_failing booked))"

definition overlapped :: db where
  "overlapped =
     syncSingleAppointment (failing_attempt 100) (failed_so_far 3)
       (syncSingleAppointment (failing_attempt 100) (failed_so_far 4)
         (syncSingleAppointment (failing_attempt 100) (failed_so_far 3) three_failures))"

section \<open>Properties\<close>

subsection \<open>What an attempt and a cycle write\<close>

lemma syncSingleAppointment_cache:
  "cache (syncSingleAppointment w e d) =
     map (\<lambda>r. if cache_id r = cache_id e then row_written w e r else r) (cache d)"
  by (auto simp: syncSingleAppointment_def try_block_def catch_block_def row_written_def
        attempt_throws_def update_cache_where_id_def update_appointments_intakeqId_def Let_def
        split: sum.splits option.splits)

lemma syncSingleAppointment_cache_seq:
  "cache_seq (syncSingleAppointment w e d) = cache_seq d"
  by (auto simp: syncSingleAppointment_def try_block_def catch_block_def
        update_cache_where_id_def update_appointments_intakeqId_def Let_def
        split: sum.splits option.splits)

lemma cache_id_row_written [simp]: "cache_id (row_written w e r) = cache_id r"
  by (simp add: row_written_def split: option.splits)

lemma for_entries_cache:
  assumes "distinct (map cache_id (cache d))"
    and "set es \<subseteq> set (cache d)"
    and "distinct (map cache_id es)"
  shows "cache (for_entries world es d) =
           map (\<lambda>r. if r \<in> set es then row_written (world r) r r else r) (cache d)"
  using assms
proof (induction es arbitrary: d)
  case Nil
  then show ?case by simp
next
  case (Cons e es)
  let ?d1 = "syncSingleAppointment (world e) e d"
  have same_id: "\<And>r. r \<in> set (cache d) \<Longrightarrow> cache_id r = cache_id e \<Longrightarrow> r = e"
    using Cons.prems(1,2) by (auto simp: distinct_map dest: inj_onD)
  have c1: "cache ?d1 = map (\<lambda>r. if r = e then row_written (world e) e e else r) (cache d)"
    unfolding syncSingleAppointment_cache
    by (rule map_cong) (auto dest: same_id)
  have ids1: "map cache_id (cache ?d1) = map cache_id (cache d)"
    by (simp add: syncSingleAppointment_cache o_def if_distrib cong: if_cong)
  have e_notin: "e \<notin> set es" using Cons.prems(3) by auto
  have sub1: "set es \<subseteq> set (cache ?d1)"
    using Cons.prems(2) e_notin by (auto simp: c1)
  have "cache (for_entries world es ?d1) =
          map (\<lambda>r. if r \<in> set es then row_written (world r) r r else r) (cache ?d1)"
    using Cons.IH[of ?d1] ids1 Cons.prems(1,3) sub1 by simp
  also have "\<dots> = map (\<lambda>r. if r \<in> set (e # es) then row_written (world r) r r else r) (cache d)"
  proof -
    have notin: "row_written (world e) e e \<notin> set es"
    proof
      assume a: "row_written (world e) e e \<in> set es"
      then have "cache_id e \<in> cache_id ` set es"
        by (metis cache_id_row_written imageI)
      then show False using Cons.prems(3) by simp
    qed
    show ?thesis unfolding c1 map_map
      by (rule map_cong) (auto simp: notin)
  qed
  finally show ?case by simp
qed

lemma pendingEntries_subset: "set (pendingEntries d) \<subseteq> set (cache d)"
  by (auto simp: pendingEntries_def dest: in_set_takeD)

lemma pendingEntries_distinct:
  "distinct (map cache_id (cache d)) \<Longrightarrow> distinct (map cache_id (pendingEntries d))"
  by (simp add: pendingEntries_def take_map[symmetric] distinct_map_filter)

lemma syncPendingAppointments_cache:
  assumes "distinct (map cache_id (cache d))"
  shows "cache (syncPendingAppointments world d) =
           map (\<lambda>r. if r \<in> set (pendingEntries d) then row_written (world r) r r else r) (cache d)"
proof (cases "pendingEntries d = []")
  case True
  then show ?thesis by (simp add: syncPendingAppointments_def)
next
  case False
  then show ?thesis
    using for_entries_cache[OF assms pendingEntries_subset pendingEntries_distinct[OF assms]]
    by (simp add: syncPendingAppointments_def Let_def)
qed





lemma pendingEntries_pending: "e \<in> set (pendingEntries d) \<Longrightarrow> syncStatus e = Some Pending"
  by (auto simp: pendingEntries_def dest: in_set_takeD)




lemma try_block_throws:
  "try_block w e d = Inl error \<longleftrightarrow> attempt_throws w e = Some error"
  by (auto simp: try_block_def attempt_throws_def update_appointments_intakeqId_def
      split: sum.splits option.splits)

lemma try_block_returns:
  "(\<exists>d1. try_block w e d = Inr d1) \<longleftrightarrow> attempt_throws w e = None"
  by (auto simp: try_block_def attempt_throws_def update_appointments_intakeqId_def
      split: sum.splits option.splits)

subsection \<open>Enqueue\<close>

text \<open>
  Claim C3. A successful call of \<^verbatim>\<open>cacheAppointment\<close> leaves the cache table as it was with
  exactly one row appended, whose status is \<^verbatim>\<open>pending\<close> and whose \<^verbatim>\<open>retryCount\<close> is 0;
  the appointments are untouched, and the key of the new row is not the key of any row
  already there. The operation is a function of the serialiser, the clock, its arguments
  and the store alone, the downstream client is not among them, and it succeeds exactly
  when the local insert is accepted: the payload has a serialisation and the appointment
  exists.
\<close>

theorem enqueue_adds_one_pending_row:
  "((\<exists>d'. cacheAppointment JSON_stringify t i p d = Inr d') \<longleftrightarrow>
      JSON_stringify p \<noteq> None \<and> i \<in> set (map appointment_id (appointments d)))
   \<and> (\<forall>d'. cacheAppointment JSON_stringify t i p d = Inr d' \<longrightarrow>
         (\<exists>text. JSON_stringify p = Some text \<and>
            cache d' = cache d @
              [\<lparr>cache_id = cache_seq d, appointmentId = i, syncStatus = Some Pending,
                retryCount = Some 0, lastSyncAttempt = None, errorMessage = None,
                payload = text, createdAt = Some t, syncedAt = None\<rparr>]) \<and>
         appointments d' = appointments d \<and>
         ((\<forall>r \<in> set (cache d). cache_id r < cache_seq d) \<longrightarrow>
            cache_seq d \<notin> set (map cache_id (cache d))))"
  by (auto simp: cacheAppointment_def split: option.splits if_splits)

text \<open>
  An enqueue on a store that holds one synced task.
\<close>

theorem enqueue_adds_one_pending_row_witness:
  "cacheAppointment Some 50 2 ''{}'' (sample_db [sample_row 1 Synced 0]) =
     Inr ((sample_db [sample_row 1 Synced 0])
            \<lparr>cache := [sample_row 1 Synced 0,
                       \<lparr>cache_id = 3, appointmentId = 2, syncStatus = Some Pending,
                        retryCount = Some 0, lastSyncAttempt = None, errorMessage = None,
                        payload = ''{}'', createdAt = Some 50, syncedAt = None\<rparr>],
             cache_seq := 4\<rparr>)
   \<and> cache_seq (sample_db [sample_row 1 Synced 0]) = 3
   \<and> cache_seq (sample_db [sample_row 1 Synced 0])
       \<notin> set (map cache_id (cache (sample_db [sample_row 1 Synced 0])))"
  using enqueue_adds_one_pending_row[of Some 50 2 "''{}''" "sample_db [sample_row 1 Synced 0]"]
  by (simp add: cacheAppointment_def sample_db_def sample_row_def)

text \<open>
  The booking route writes the appointment first, so its enqueue is never refused for a
  missing appointment.
\<close>

lemma bookAppointment_succeeds:
  "JSON_stringify p = Some text \<Longrightarrow>
   bookAppointment JSON_stringify t p d =
     Inr (d\<lparr>appointments := appointments d @ [\<lparr>appointment_id = appointments_seq d, intakeqId = None\<rparr>],
           appointments_seq := appointments_seq d + 1,
           cache := cache d @
              [\<lparr>cache_id = cache_seq d, appointmentId = appointments_seq d,
                syncStatus = Some Pending, retryCount = Some 0, lastSyncAttempt = None,
                errorMessage = None, payload = text, createdAt = Some t, syncedAt = None\<rparr>],
           cache_seq := cache_seq d + 1\<rparr>)"
  by (simp add: bookAppointment_def insertAppointment_def cacheAppointment_def Let_def)

subsection \<open>Selection\<close>

lemma filter_length_mono:
  "(\<forall>x \<in> set xs. Q x \<longrightarrow> P x) \<Longrightarrow> length (filter Q xs) \<le> length (filter P xs)"
  by (induction xs) auto

lemma pending_count_not_increased:
  assumes "distinct (map cache_id (cache d))"
  shows "length (filter (\<lambda>r. syncStatus r = Some Pending)
                   (cache (syncPendingAppointments world d)))
           \<le> length (filter (\<lambda>r. syncStatus r = Some Pending) (cache d))"
proof -
  define g :: "appointmentCache \<Rightarrow> appointmentCache"
    where "g = (\<lambda>r. if r \<in> set (pendingEntries d) then row_written (world r) r r else r)"
  have c: "cache (syncPendingAppointments world d) = map g (cache d)"
    unfolding g_def using assms by (rule syncPendingAppointments_cache)
  have was_pending: "\<forall>r \<in> set (cache d). syncStatus (g r) = Some Pending \<longrightarrow> syncStatus r = Some Pending"
    using pendingEntries_pending[of _ d] by (auto simp: g_def)
  have "length (filter (\<lambda>r. syncStatus r = Some Pending) (map g (cache d))) =
          length (filter (\<lambda>r. syncStatus (g r) = Some Pending) (cache d))"
    by (simp add: filter_map o_def)
  also have "\<dots> \<le> length (filter (\<lambda>r. syncStatus r = Some Pending) (cache d))"
    using was_pending by (rule filter_length_mono)
  finally show ?thesis unfolding c .
qed

text \<open>
  Claim C6. A cycle selects the pending rows that come first in scan order, ten of them
  when more than ten rows are pending and all of them otherwise: every selected row is a
  row of the table whose status is \<^verbatim>\<open>pending\<close>, and the rows left out are the pending
  rows behind the tenth. The selection does not look at \<^verbatim>\<open>retryCount\<close> or
  \<^verbatim>\<open>lastSyncAttempt\<close>: rewriting these two columns in any way rewrites the selected
  entries in the same way and selects no other rows. So, with unique keys and at most
  ten pending rows, every row that is still pending after a cycle, whatever its count,
  is selected again by the next cycle.
\<close>

theorem selection_is_pending_only_and_bounded:
  "length (pendingEntries d) =
     min 10 (length (filter (\<lambda>r. syncStatus r = Some Pending) (cache d)))
   \<and> filter (\<lambda>r. syncStatus r = Some Pending) (cache d) =
       pendingEntries d @ drop 10 (filter (\<lambda>r. syncStatus r = Some Pending) (cache d))
   \<and> length (pendingEntries d) \<le> 10
   \<and> (\<forall>r \<in> set (pendingEntries d). r \<in> set (cache d) \<and> syncStatus r = Some Pending)
   \<and> (length (filter (\<lambda>r. syncStatus r = Some Pending) (cache d)) \<le> 10 \<longrightarrow>
        set (pendingEntries d) = {r \<in> set (cache d). syncStatus r = Some Pending})
   \<and> pendingEntries (d\<lparr>cache := map (\<lambda>r. r\<lparr>retryCount := n r, lastSyncAttempt := a r\<rparr>) (cache d)\<rparr>) =
       map (\<lambda>r. r\<lparr>retryCount := n r, lastSyncAttempt := a r\<rparr>) (pendingEntries d)
   \<and> (distinct (map cache_id (cache d)) \<and>
        length (filter (\<lambda>r. syncStatus r = Some Pending) (cache d)) \<le> 10 \<longrightarrow>
        (\<forall>r \<in> set (cache (syncPendingAppointments world d)).
           syncStatus r = Some Pending \<longrightarrow>
           r \<in> set (pendingEntries (syncPendingAppointments world d))))"
proof -
  have 0: "length (pendingEntries d) =
     min 10 (length (filter (\<lambda>r. syncStatus r = Some Pending) (cache d)))"
    by (simp add: pendingEntries_def min.commute)
  have p: "filter (\<lambda>r. syncStatus r = Some Pending) (cache d) =
       pendingEntries d @ drop 10 (filter (\<lambda>r. syncStatus r = Some Pending) (cache d))"
    by (simp add: pendingEntries_def)
  have 1: "length (pendingEntries d) \<le> 10" by (simp add: pendingEntries_def)
  have 2: "\<forall>r \<in> set (pendingEntries d). r \<in> set (cache d) \<and> syncStatus r = Some Pending"
    by (auto simp: pendingEntries_def dest: in_set_takeD)
  have all: "set (pendingEntries e) = {r \<in> set (cache e). syncStatus r = Some Pending}"
    if "length (filter (\<lambda>r. syncStatus r = Some Pending) (cache e)) \<le> 10" for e
    using that by (simp add: pendingEntries_def)
  have 3: "length (filter (\<lambda>r. syncStatus r = Some Pending) (cache d)) \<le> 10 \<longrightarrow>
        set (pendingEntries d) = {r \<in> set (cache d). syncStatus r = Some Pending}"
    using all[of d] by (rule impI)
  have 4: "pendingEntries (d\<lparr>cache := map (\<lambda>r. r\<lparr>retryCount := n r, lastSyncAttempt := a r\<rparr>) (cache d)\<rparr>) =
       map (\<lambda>r. r\<lparr>retryCount := n r, lastSyncAttempt := a r\<rparr>) (pendingEntries d)"
    by (simp add: pendingEntries_def filter_map o_def take_map)
  have 5: "distinct (map cache_id (cache d)) \<and>
        length (filter (\<lambda>r. syncStatus r = Some Pending) (cache d)) \<le> 10 \<longrightarrow>
        (\<forall>r \<in> set (cache (syncPendingAppointments world d)).
           syncStatus r = Some Pending \<longrightarrow>
           r \<in> set (pendingEntries (syncPendingAppointments world d)))"
  proof (intro impI ballI)
    fix r
    assume h: "distinct (map cache_id (cache d)) \<and>
        length (filter (\<lambda>r. syncStatus r = Some Pending) (cache d)) \<le> 10"
      and r: "r \<in> set (cache (syncPendingAppointments world d))"
      and pr: "syncStatus r = Some Pending"
    have "length (filter (\<lambda>r. syncStatus r = Some Pending)
                    (cache (syncPendingAppointments world d))) \<le> 10"
      using pending_count_not_increased[of d world] h by linarith
    then have "set (pendingEntries (syncPendingAppointments world d)) =
        {r \<in> set (cache (syncPendingAppointments world d)). syncStatus r = Some Pending}"
      by (rule all)
    then show "r \<in> set (pendingEntries (syncPendingAppointments world d))"
      using r pr by simp
  qed
  show ?thesis
    by (intro conjI) (rule 0, rule p, rule 1, rule 2, rule 3, rule 4, rule 5)
qed

text \<open>
  Twelve pending rows, of which a cycle takes the first ten; a store with one pending row
  among three; and a task that has failed three times, fails again and is selected by
  the next cycle.
\<close>

theorem selection_is_pending_only_and_bounded_witness:
  "length (cache (sample_db twelve_pending)) = 12
   \<and> length (pendingEntries (sample_db twelve_pending)) = 10
   \<and> pendingEntries (sample_db twelve_pending) = take 10 twelve_pending
   \<and> pendingEntries (sample_db [sample_row 1 Failed 5, sample_row 2 Pending 4, sample_row 3 Synced 0]) =
       [sample_row 2 Pending 4]
   \<and> set (pendingEntries (sample_db [sample_row 1 Failed 5, sample_row 2 Pending 4, sample_row 3 Synced 0])) =
       {r \<in> set (cache (sample_db [sample_row 1 Failed 5, sample_row 2 Pending 4, sample_row 3 Synced 0])).
          syncStatus r = Some Pending}
   \<and> pendingEntries (syncPendingAppointments always_failing (sample_db [failed_so_far 3])) =
       [failed_so_far 4]"
proof -
  let ?small = "sample_db [sample_row 1 Failed 5, sample_row 2 Pending 4, sample_row 3 Synced 0]"
  have len: "length (cache (sample_db twelve_pending)) = 12"
    by (simp add: sample_db_def twelve_pending_def)
  have pend: "filter (\<lambda>r. syncStatus r = Some Pending) (cache (sample_db twelve_pending)) =
                twelve_pending"
    by (simp add: sample_db_def twelve_pending_def sample_row_def)
  have "length (pendingEntries (sample_db twelve_pending)) =
          min 10 (length (filter (\<lambda>r. syncStatus r = Some Pending)
                            (cache (sample_db twelve_pending))))"
    using selection_is_pending_only_and_bounded[of "sample_db twelve_pending"] by (rule conjunct1)
  then have ten: "length (pendingEntries (sample_db twelve_pending)) = 10"
    unfolding pend by (simp add: twelve_pending_def)
  have first: "pendingEntries (sample_db twelve_pending) = take 10 twelve_pending"
    unfolding pendingEntries_def pend ..
  have sel: "pendingEntries ?small = [sample_row 2 Pending 4]"
    by (simp add: sample_db_def pendingEntries_def sample_row_def)
  have few: "length (filter (\<lambda>r. syncStatus r = Some Pending) (cache ?small)) \<le> 10"
    by (simp add: sample_db_def sample_row_def)
  have all: "set (pendingEntries ?small) = {r \<in> set (cache ?small). syncStatus r = Some Pending}"
    using selection_is_pending_only_and_bounded[of ?small] few by blast
  have again: "pendingEntries (syncPendingAppointments always_failing (sample_db [failed_so_far 3])) =
       [failed_so_far 4]"
    by (simp add: sample_db_def pendingEntries_def syncPendingAppointments_def
        syncSingleAppointment_def try_block_def catch_block_def always_failing_def
        failing_attempt_def IntakeQService_createAppointment_def refusing_def
        update_cache_where_id_def to_number_def message_or_unknown_def failed_so_far_def
        sample_row_def)
  show ?thesis
    by (intro conjI) (rule len, rule ten, rule first, rule sel, rule all, rule again)
qed

subsection \<open>Failed attempts\<close>



subsection \<open>Successful attempts\<close>




text \<open>
  Claim C10. When the \<^verbatim>\<open>try\<close> block of an attempt completes, the cache table
  afterwards is the table before with \<^verbatim>\<open>syncStatus\<close> and \<^verbatim>\<open>syncedAt\<close> rewritten in
  the rows that carry the entry's key. Every other column of every row is as before:
  \<^verbatim>\<open>retryCount\<close>, \<^verbatim>\<open>lastSyncAttempt\<close>, \<^verbatim>\<open>errorMessage\<close>, \<^verbatim>\<open>payload\<close>,
  \<^verbatim>\<open>appointmentId\<close>, \<^verbatim>\<open>createdAt\<close> and the key.
\<close>

theorem success_writes_status_and_syncedAt_only:
  assumes "try_block w entry d = Inr d1"
  shows "cache (syncSingleAppointment w entry d) =
           map (\<lambda>r. if cache_id r = cache_id entry
                     then r\<lparr>syncStatus := Some Synced, syncedAt := Some (now w)\<rparr> else r)
               (cache d)
       \<and> map retryCount (cache (syncSingleAppointment w entry d)) = map retryCount (cache d)
       \<and> map lastSyncAttempt (cache (syncSingleAppointment w entry d)) = map lastSyncAttempt (cache d)
       \<and> map errorMessage (cache (syncSingleAppointment w entry d)) = map errorMessage (cache d)
       \<and> map payload (cache (syncSingleAppointment w entry d)) = map payload (cache d)
       \<and> map appointmentId (cache (syncSingleAppointment w entry d)) = map appointmentId (cache d)
       \<and> map createdAt (cache (syncSingleAppointment w entry d)) = map createdAt (cache d)
       \<and> map cache_id (cache (syncSingleAppointment w entry d)) = map cache_id (cache d)"
proof -
  have "attempt_throws w entry = None"
    using assms try_block_returns[of w entry d] by blast
  then have c: "cache (syncSingleAppointment w entry d) =
           map (\<lambda>r. if cache_id r = cache_id entry
                     then r\<lparr>syncStatus := Some Synced, syncedAt := Some (now w)\<rparr> else r)
               (cache d)"
    by (simp add: syncSingleAppointment_cache row_written_def)
  show ?thesis
    unfolding c by (simp add: o_def if_distrib cong: if_cong)
qed

text \<open>
  A task fails twice and then succeeds: it is synced, its \<^verbatim>\<open>retryCount\<close> is still 2 and
  its last error message is still there.
\<close>

theorem success_writes_status_and_syncedAt_only_witness:
  "cache (syncPendingAppointments always_failing
            (syncPendingAppointments always_failing (sample_db [sample_row 1 Pending 0]))) =
     [failed_twice]
   \<and> cache (syncSingleAppointment (succeeding_attempt [(''id'', ''apt-1'')] 130) failed_twice
              (sample_db [failed_twice])) =
       [failed_twice\<lparr>syncStatus := Some Synced, syncedAt := Some 130\<rparr>]
   \<and> retryCount (failed_twice\<lparr>syncStatus := Some Synced, syncedAt := Some 130\<rparr>) = Some 2
   \<and> errorMessage (failed_twice\<lparr>syncStatus := Some Synced, syncedAt := Some 130\<rparr>) =
       Some ''Failed to create appointment in IntakeQ''"
proof -
  have t: "try_block (succeeding_attempt [(''id'', ''apt-1'')] 130) failed_twice
             (sample_db [failed_twice]) =
           Inr \<lparr>appointments = [\<lparr>appointment_id = 1, intakeqId = Some ''apt-1''\<rparr>,
                                \<lparr>appointment_id = 2, intakeqId = None\<rparr>],
                appointments_seq = 3,
                cache = [failed_twice\<lparr>syncStatus := Some Synced, syncedAt := Some 130\<rparr>],
                cache_seq = 3\<rparr>"
    by (simp add: try_block_def succeeding_attempt_def IntakeQService_createAppointment_def
        answering_def property_def update_appointments_intakeqId_def update_cache_where_id_def
        sample_db_def failed_twice_def sample_row_def)
  have two: "cache (syncPendingAppointments always_failing
            (syncPendingAppointments always_failing (sample_db [sample_row 1 Pending 0]))) =
     [failed_twice]"
    by (simp add: sample_db_def sample_row_def failed_twice_def pendingEntries_def
        syncPendingAppointments_def syncSingleAppointment_def try_block_def catch_block_def
        always_failing_def failing_attempt_def IntakeQService_createAppointment_def refusing_def
        update_cache_where_id_def to_number_def message_or_unknown_def)
  show ?thesis
    using success_writes_status_and_syncedAt_only[OF t] two
    by (simp add: sample_db_def failed_twice_def sample_row_def succeeding_attempt_def)
qed

subsection \<open>The back-reference on the appointment\<close>

lemma property_id_of_declared_shape: "property (as_object a) ''id'' = None"
  by (simp add: property_def as_object_def)

lemma update_undefined: "update_appointments_intakeqId None None i d = Inr d"
  by (simp add: update_appointments_intakeqId_def cong: if_cong)

text \<open>
  Claim C8 says that after a successful sync the appointment's \<^verbatim>\<open>intakeqId\<close> is the
  identifier \<^verbatim>\<open>Id\<close> that the downstream client returned. The code reads the property
  \<^verbatim>\<open>id\<close> instead. For every answer of the shape that \<^verbatim>\<open>IntakeQAppointment\<close>
  declares, whatever else the attempt does, the appointments are left exactly as they
  were: the identifier is not recorded.
\<close>

theorem backref_not_written_for_declared_shape:
  assumes "JSON_parse w (payload entry) = Inr p"
    and "createAppointment w p = Inr (as_object a)"
  shows "appointments (syncSingleAppointment w entry d) = appointments d"
proof (cases "appointments_update_throws w")
  case None
  then show ?thesis
    using assms
    by (simp add: syncSingleAppointment_def try_block_def property_id_of_declared_shape
        update_undefined update_cache_where_id_def)
next
  case (Some error)
  then show ?thesis
    using assms
    by (simp add: syncSingleAppointment_def try_block_def catch_block_def
        update_appointments_intakeqId_def update_cache_where_id_def Let_def)
qed

text \<open>
  The client answers with identifier \<^verbatim>\<open>apt-77\<close>. When the store accepts the update,
  the task is marked synced and the appointment still has no downstream identifier. When
  the update is refused because nothing is left to set, the attempt counts as failed,
  and the appointment has no downstream identifier either.
\<close>

theorem backref_not_written_for_declared_shape_witness:
  "createAppointment (succeeding_attempt (as_object sample_appointment) 100) ''{}'' =
     Inr (as_object sample_appointment)
   \<and> Id sample_appointment = ''apt-77''
   \<and> map intakeqId (appointments (syncSingleAppointment
        (succeeding_attempt (as_object sample_appointment) 100) (sample_row 1 Pending 0)
        (sample_db [sample_row 1 Pending 0]))) = [None, None]
   \<and> map syncStatus (cache (syncSingleAppointment
        (succeeding_attempt (as_object sample_appointment) 100) (sample_row 1 Pending 0)
        (sample_db [sample_row 1 Pending 0]))) = [Some Synced]
   \<and> createAppointment (empty_set_attempt (as_object sample_appointment) 100) ''{}'' =
       Inr (as_object sample_appointment)
   \<and> map intakeqId (appointments (syncSingleAppointment
        (empty_set_attempt (as_object sample_appointment) 100) (sample_row 1 Pending 0)
        (sample_db [sample_row 1 Pending 0]))) = [None, None]
   \<and> cache (syncSingleAppointment
        (empty_set_attempt (as_object sample_appointment) 100) (sample_row 1 Pending 0)
        (sample_db [sample_row 1 Pending 0])) =
       [(sample_row 1 Pending 0)\<lparr>retryCount := Some 1, lastSyncAttempt := Some 100,
           errorMessage := Some ''No values to set''\<rparr>]"
proof -
  have c: "createAppointment (succeeding_attempt (as_object sample_appointment) 100) ''{}'' =
     Inr (as_object sample_appointment)"
    by (simp add: succeeding_attempt_def IntakeQService_createAppointment_def answering_def)
  have p: "JSON_parse (succeeding_attempt (as_object sample_appointment) 100)
             (payload (sample_row 1 Pending 0)) = Inr ''{}''"
    by (simp add: succeeding_attempt_def sample_row_def)
  have s: "map syncStatus (cache (syncSingleAppointment
        (succeeding_attempt (as_object sample_appointment) 100) (sample_row 1 Pending 0)
        (sample_db [sample_row 1 Pending 0]))) = [Some Synced]"
    using c p
    by (simp add: syncSingleAppointment_cache row_written_def attempt_throws_def
        succeeding_attempt_def sample_db_def sample_row_def)
  have c': "createAppointment (empty_set_attempt (as_object sample_appointment) 100) ''{}'' =
     Inr (as_object sample_appointment)"
    by (simp add: empty_set_attempt_def IntakeQService_createAppointment_def answering_def)
  have p': "JSON_parse (empty_set_attempt (as_object sample_appointment) 100)
             (payload (sample_row 1 Pending 0)) = Inr ''{}''"
    by (simp add: empty_set_attempt_def sample_row_def)
  have s': "cache (syncSingleAppointment
        (empty_set_attempt (as_object sample_appointment) 100) (sample_row 1 Pending 0)
        (sample_db [sample_row 1 Pending 0])) =
       [(sample_row 1 Pending 0)\<lparr>retryCount := Some 1, lastSyncAttempt := Some 100,
           errorMessage := Some ''No values to set''\<rparr>]"
    using c' p'
    by (simp add: syncSingleAppointment_cache row_written_def attempt_throws_def
        empty_set_attempt_def sample_db_def sample_row_def to_number_def
        message_or_unknown_def)
  have a: "map intakeqId (appointments (syncSingleAppointment
        (succeeding_attempt (as_object sample_appointment) 100) (sample_row 1 Pending 0)
        (sample_db [sample_row 1 Pending 0]))) = [None, None]"
    using backref_not_written_for_declared_shape[OF p c, of "sample_db [sample_row 1 Pending 0]"]
    by (simp add: sample_db_def)
  have a': "map intakeqId (appointments (syncSingleAppointment
        (empty_set_attempt (as_object sample_appointment) 100) (sample_row 1 Pending 0)
        (sample_db [sample_row 1 Pending 0]))) = [None, None]"
    using backref_not_written_for_declared_shape[OF p' c', of "sample_db [sample_row 1 Pending 0]"]
    by (simp add: sample_db_def)
  have i: "Id sample_appointment = ''apt-77''" by (simp add: sample_appointment_def)
  show ?thesis
    by (intro conjI) (rule c, rule i, rule a, rule s, rule c', rule a', rule s')
qed

subsection \<open>Isolation of the tasks of one cycle\<close>




subsection \<open>How the worker addresses a row\<close>

text \<open>
  Claim C9 as stated does not hold. The entry was selected as \<^verbatim>\<open>pending\<close>; by the time
  the worker writes, the row with its key is \<^verbatim>\<open>synced\<close>. The write of the failed attempt
  is applied all the same.
\<close>

theorem compare_and_set_counterexample:
  "syncStatus (sample_row 1 Pending 0) = Some Pending
   \<and> cache (sample_db [sample_row 1 Synced 0]) = [sample_row 1 Synced 0]
   \<and> cache (syncSingleAppointment (failing_attempt 100) (sample_row 1 Pending 0)
              (sample_db [sample_row 1 Synced 0])) =
       [(sample_row 1 Synced 0)\<lparr>retryCount := Some 1, lastSyncAttempt := Some 100,
           errorMessage := Some ''Failed to create appointment in IntakeQ''\<rparr>]
   \<and> (sample_row 1 Synced 0)\<lparr>retryCount := Some 1, lastSyncAttempt := Some 100,
           errorMessage := Some ''Failed to create appointment in IntakeQ''\<rparr> \<noteq> sample_row 1 Synced 0"
  by (simp add: sample_db_def sample_row_def syncSingleAppointment_def try_block_def
      catch_block_def failing_attempt_def IntakeQService_createAppointment_def refusing_def
      update_cache_where_id_def to_number_def message_or_unknown_def)

text \<open>
  Claim C9, amended. Every update of the worker is keyed by the task's key alone: it
  rewrites the rows that carry the entry's key, whatever their status is at that moment,
  with the columns of the success branch or of the failure branch, and leaves every row
  with another key as it is.
\<close>

theorem worker_update_keyed_by_id_only:
  "cache (syncSingleAppointment w entry d) =
     map (\<lambda>r. if cache_id r = cache_id entry
               then (case try_block w entry d of
                       Inr d1 \<Rightarrow> r\<lparr>syncStatus := Some Synced, syncedAt := Some (now w)\<rparr>
                     | Inl error \<Rightarrow>
                         if to_number (retryCount entry) + 1 \<ge> 5
                         then r\<lparr>syncStatus := Some Failed,
                                retryCount := Some (to_number (retryCount entry) + 1),
                                lastSyncAttempt := Some (now w),
                                errorMessage := Some (message_or_unknown error)\<rparr>
                         else r\<lparr>retryCount := Some (to_number (retryCount entry) + 1),
                                lastSyncAttempt := Some (now w),
                                errorMessage := Some (message_or_unknown error)\<rparr>)
               else r)
         (cache d)"
  by (auto simp: syncSingleAppointment_def try_block_def catch_block_def
        update_cache_where_id_def update_appointments_intakeqId_def Let_def
        split: sum.splits option.splits)

subsection \<open>The administrative reset\<close>

text \<open>
  Claim C4. \<^verbatim>\<open>retryFailedSyncs\<close> rewrites exactly the rows whose status is \<^verbatim>\<open>failed\<close>:
  they become \<^verbatim>\<open>pending\<close> with \<^verbatim>\<open>retryCount\<close> 0 and no \<^verbatim>\<open>errorMessage\<close>. No failed row
  is left, the appointments are untouched, running it a second time changes nothing, and
  on a store without failed rows it changes nothing.
\<close>

theorem retryFailedSyncs_resets_and_is_idempotent:
  "cache (retryFailedSyncs d) =
     map (\<lambda>r. if syncStatus r = Some Failed
               then r\<lparr>syncStatus := Some Pending, retryCount := Some 0, errorMessage := None\<rparr>
               else r) (cache d)
   \<and> (\<forall>r \<in> set (cache (retryFailedSyncs d)). syncStatus r \<noteq> Some Failed)
   \<and> appointments (retryFailedSyncs d) = appointments d
   \<and> retryFailedSyncs (retryFailedSyncs d) = retryFailedSyncs d
   \<and> ((\<forall>r \<in> set (cache d). syncStatus r \<noteq> Some Failed) \<longrightarrow> retryFailedSyncs d = d)"
proof -
  let ?f = "\<lambda>r. if syncStatus r = Some Failed
                 then r\<lparr>syncStatus := Some Pending, retryCount := Some 0, errorMessage := None\<rparr>
                 else r"
  have none_left: "\<forall>r \<in> set (cache (retryFailedSyncs d)). syncStatus r \<noteq> Some Failed"
    by (auto simp: retryFailedSyncs_def)
  have noop: "retryFailedSyncs e = e" if "\<forall>r \<in> set (cache e). syncStatus r \<noteq> Some Failed" for e
  proof -
    have "map ?f (cache e) = cache e"
      using that by (intro map_idI) simp
    then show ?thesis by (simp add: retryFailedSyncs_def)
  qed
  have idem: "retryFailedSyncs (retryFailedSyncs d) = retryFailedSyncs d"
    using noop[OF none_left] .
  have rows: "cache (retryFailedSyncs d) = map ?f (cache d)"
    by (simp add: retryFailedSyncs_def)
  have appts: "appointments (retryFailedSyncs d) = appointments d"
    by (simp add: retryFailedSyncs_def)
  have noop': "(\<forall>r \<in> set (cache d). syncStatus r \<noteq> Some Failed) \<longrightarrow> retryFailedSyncs d = d"
    using noop[of d] by (rule impI)
  show ?thesis
    by (intro conjI) (rule rows, rule none_left, rule appts, rule idem, rule noop')
qed

text \<open>
  A store with one failed and one pending task, and a store without failed tasks.
\<close>

theorem retryFailedSyncs_resets_and_is_idempotent_witness:
  "cache (retryFailedSyncs (sample_db [sample_row 1 Failed 5, failed_twice])) =
     [sample_row 1 Pending 0, failed_twice]
   \<and> retryFailedSyncs (retryFailedSyncs (sample_db [sample_row 1 Failed 5, failed_twice])) =
       retryFailedSyncs (sample_db [sample_row 1 Failed 5, failed_twice])
   \<and> retryFailedSyncs (sample_db [failed_twice]) = sample_db [failed_twice]"
  using retryFailedSyncs_resets_and_is_idempotent[of "sample_db [sample_row 1 Failed 5, failed_twice]"]
    retryFailedSyncs_resets_and_is_idempotent[of "sample_db [failed_twice]"]
  by (simp add: sample_db_def sample_row_def failed_twice_def)

subsection \<open>Invariant of the reachable states\<close>

lemma for_entries_cache_seq: "cache_seq (for_entries world es d) = cache_seq d"
  by (induction es arbitrary: d) (simp_all add: syncSingleAppointment_cache_seq)

lemma syncPendingAppointments_cache_seq:
  "cache_seq (syncPendingAppointments world d) = cache_seq d"
  by (simp add: syncPendingAppointments_def Let_def for_entries_cache_seq)

lemma row_ok_row_written:
  "row_ok r \<Longrightarrow> syncStatus r = Some Pending \<Longrightarrow> row_ok (row_written w r r)"
  by (auto simp: row_ok_def row_written_def to_number_def split: option.splits)

lemma store_ok_empty: "store_ok empty_db"
  by (simp add: store_ok_def empty_db_def)

lemma store_ok_insertAppointment: "store_ok d \<Longrightarrow> store_ok (snd (insertAppointment d))"
  by (simp add: store_ok_def insertAppointment_def Let_def)

lemma row_ok_new: "row_ok \<lparr>cache_id = k, appointmentId = i, syncStatus = Some Pending,
     retryCount = Some 0, lastSyncAttempt = None, errorMessage = None, payload = text,
     createdAt = Some t, syncedAt = None\<rparr>"
  by (simp add: row_ok_def)

lemma store_ok_cacheAppointment:
  assumes "store_ok d" and "cacheAppointment JSON_stringify t i p d = Inr d'"
  shows "store_ok d'"
proof -
  obtain body where d': "d' = d\<lparr>cache := cache d @
       [\<lparr>cache_id = cache_seq d, appointmentId = i, syncStatus = Some Pending,
         retryCount = Some 0, lastSyncAttempt = None, errorMessage = None, payload = body,
         createdAt = Some t, syncedAt = None\<rparr>],
       cache_seq := cache_seq d + 1\<rparr>"
    using assms(2) by (auto simp: cacheAppointment_def split: option.splits if_splits)
  have old: "\<forall>r \<in> set (cache d). cache_id r < cache_seq d \<and> row_ok r"
    using assms(1) by (simp add: store_ok_def)
  then have fresh: "cache_seq d \<notin> cache_id ` set (cache d)" by auto
  have dist: "distinct (map cache_id (cache d))" using assms(1) by (simp add: store_ok_def)
  have older: "\<forall>r \<in> set (cache d). cache_id r < Suc (cache_seq d) \<and> row_ok r"
    using old by (simp add: less_Suc_eq)
  show ?thesis
    unfolding store_ok_def d' using fresh dist older by (simp add: row_ok_new)
qed

lemma store_ok_syncPendingAppointments:
  assumes "store_ok d"
  shows "store_ok (syncPendingAppointments world d)"
proof -
  define g :: "appointmentCache \<Rightarrow> appointmentCache"
    where "g = (\<lambda>r. if r \<in> set (pendingEntries d) then row_written (world r) r r else r)"
  have dist: "distinct (map cache_id (cache d))" using assms by (simp add: store_ok_def)
  have old: "\<And>r. r \<in> set (cache d) \<Longrightarrow> cache_id r < cache_seq d \<and> row_ok r"
    using assms by (simp add: store_ok_def)
  have c: "cache (syncPendingAppointments world d) = map g (cache d)"
    unfolding g_def using dist by (rule syncPendingAppointments_cache)
  have g_id: "\<And>r. cache_id (g r) = cache_id r" by (simp add: g_def)
  have g_ok: "row_ok (g r)" if "r \<in> set (cache d)" for r
    using old[OF that] pendingEntries_pending[of r d] by (simp add: g_def row_ok_row_written)
  have ids: "map cache_id (map g (cache d)) = map cache_id (cache d)"
    by (simp add: g_id)
  show ?thesis
    unfolding store_ok_def c syncPendingAppointments_cache_seq ids
    using dist old by (simp add: g_id g_ok)
qed

lemma store_ok_retryFailedSyncs:
  assumes "store_ok d"
  shows "store_ok (retryFailedSyncs d)"
proof -
  define g :: "appointmentCache \<Rightarrow> appointmentCache"
    where "g = (\<lambda>r. if syncStatus r = Some Failed
      then r\<lparr>syncStatus := Some Pending, retryCount := Some 0, errorMessage := None\<rparr> else r)"
  have c: "cache (retryFailedSyncs d) = map g (cache d)"
    by (simp add: retryFailedSyncs_def g_def)
  have s: "cache_seq (retryFailedSyncs d) = cache_seq d"
    by (simp add: retryFailedSyncs_def)
  have g_id: "\<And>r. cache_id (g r) = cache_id r" by (simp add: g_def)
  have g_ok: "\<And>r. row_ok r \<Longrightarrow> row_ok (g r)" by (simp add: g_def row_ok_def)
  have ids: "map cache_id (map g (cache d)) = map cache_id (cache d)"
    by (simp add: g_id)
  show ?thesis
    unfolding store_ok_def c s ids
    using assms by (simp add: store_ok_def g_id g_ok)
qed

lemma same_id:
  "distinct (map cache_id xs) \<Longrightarrow> r \<in> set xs \<Longrightarrow> e \<in> set xs \<Longrightarrow>
   cache_id r = cache_id e \<Longrightarrow> r = e"
  by (auto simp: distinct_map dest: inj_onD)

lemma store_ok_syncSingleAppointment:
  assumes "store_ok d" and "e \<in> set (cache d)" and "syncStatus e = Some Pending"
  shows "store_ok (syncSingleAppointment w e d)"
proof -
  define g :: "appointmentCache \<Rightarrow> appointmentCache"
    where "g = (\<lambda>r. if cache_id r = cache_id e then row_written w e r else r)"
  have dist: "distinct (map cache_id (cache d))" using assms(1) by (simp add: store_ok_def)
  have old: "\<And>r. r \<in> set (cache d) \<Longrightarrow> cache_id r < cache_seq d \<and> row_ok r"
    using assms(1) by (simp add: store_ok_def)
  have c: "cache (syncSingleAppointment w e d) = map g (cache d)"
    unfolding g_def by (rule syncSingleAppointment_cache)
  have g_id: "\<And>r. cache_id (g r) = cache_id r" by (simp add: g_def)
  have g_ok: "row_ok (g r)" if "r \<in> set (cache d)" for r
  proof (cases "cache_id r = cache_id e")
    case True
    then have "r = e" using same_id[OF dist that assms(2)] by simp
    then show ?thesis
      using old[OF assms(2)] assms(3) by (simp add: g_def row_ok_row_written)
  next
    case False
    then show ?thesis using old[OF that] by (simp add: g_def)
  qed
  have ids: "map cache_id (map g (cache d)) = map cache_id (cache d)"
    by (simp add: g_id)
  show ?thesis
    unfolding store_ok_def c syncSingleAppointment_cache_seq ids
    using dist old by (simp add: g_id g_ok)
qed

lemma cycle_ok_start: "cycle_ok empty_db []"
  by (simp add: cycle_ok_def store_ok_empty)

lemma cycle_ok_primary: "cycle_ok d todo \<Longrightarrow> cycle_ok (snd (insertAppointment d)) todo"
  unfolding cycle_ok_def
  by (simp add: store_ok_insertAppointment) (simp add: insertAppointment_def Let_def)

lemma cycle_ok_enqueue:
  assumes "cycle_ok d todo" and "cacheAppointment JSON_stringify t i p d = Inr d'"
  shows "cycle_ok d' todo"
proof -
  have "set (cache d) \<subseteq> set (cache d')"
    using assms(2) by (auto simp: cacheAppointment_def split: option.splits if_splits)
  then show ?thesis
    using assms store_ok_cacheAppointment[OF _ assms(2)] unfolding cycle_ok_def by blast
qed

lemma cycle_ok_select: "cycle_ok d [] \<Longrightarrow> cycle_ok d (pendingEntries d)"
  unfolding cycle_ok_def
  using pendingEntries_subset[of d] pendingEntries_pending[of _ d]
  by (auto simp: pendingEntries_distinct store_ok_def)

lemma cycle_ok_step:
  assumes "cycle_ok d (xs @ e # ys)"
  shows "cycle_ok (syncSingleAppointment w e d) (xs @ ys)"
proof -
  have ok: "store_ok d" and e_in: "e \<in> set (cache d)" and e_p: "syncStatus e = Some Pending"
    and dist: "distinct (map cache_id (xs @ ys))"
    and fresh: "cache_id e \<notin> cache_id ` set (xs @ ys)"
    and rest: "\<And>x. x \<in> set (xs @ ys) \<Longrightarrow> x \<in> set (cache d) \<and> syncStatus x = Some Pending"
    using assms by (auto simp: cycle_ok_def)
  have kept: "x \<in> set (cache (syncSingleAppointment w e d))" if "x \<in> set (xs @ ys)" for x
  proof -
    have "cache_id x \<noteq> cache_id e" using that fresh by (metis imageI)
    moreover have "x \<in> set (cache d)" using rest[OF that] by simp
    ultimately show ?thesis
      unfolding syncSingleAppointment_cache by (auto simp: image_iff intro!: bexI[of _ x])
  qed
  show ?thesis
    unfolding cycle_ok_def
    using store_ok_syncSingleAppointment[OF ok e_in e_p] dist kept rest by simp
qed

lemma cycle_ok_reset:
  assumes "cycle_ok d todo"
  shows "cycle_ok (retryFailedSyncs d) todo"
proof -
  have kept: "x \<in> set (cache (retryFailedSyncs d))"
    if "x \<in> set (cache d)" "syncStatus x = Some Pending" for x
    using that by (auto simp: retryFailedSyncs_def image_iff intro!: bexI[of _ x])
  show ?thesis
    using assms kept unfolding cycle_ok_def by (simp add: store_ok_retryFailedSyncs)
qed

text \<open>Without overlap, the entries in flight are those of one run.\<close>

lemma reachable_cycle_ok:
  assumes "reachable overlap JSON_stringify s" and "\<not> overlap"
  shows "cycle_ok (fst s) (concat (snd s))"
  using assms
proof (induction rule: reachable.induct)
  case start
  show ?case by (simp add: cycle_ok_start)
next
  case (primary d runs)
  then show ?case by (simp add: cycle_ok_primary)
next
  case (enqueue d runs t i p d')
  then show ?case using cycle_ok_enqueue by fastforce
next
  case (select d runs)
  have e: "concat runs = []" using select.hyps(2) select.prems by blast
  have "cycle_ok d (concat runs)" using select.IH select.prems by simp
  then have "cycle_ok d []" unfolding e .
  then have "cycle_ok d (pendingEntries d)" by (rule cycle_ok_select)
  then show ?case by (simp only: fst_conv snd_conv concat.simps e append_Nil2)
next
  case (step d earlier entry todo later w)
  then have "cycle_ok d (concat earlier @ entry # (todo @ concat later))" by simp
  then have "cycle_ok (syncSingleAppointment w entry d) (concat earlier @ (todo @ concat later))"
    by (rule cycle_ok_step)
  then show ?case by simp
next
  case (reset d runs)
  then show ?case by (simp add: cycle_ok_reset)
qed

text \<open>With overlap, the counts stay within their bounds.\<close>

lemma row_within_row_written:
  "row_within r \<Longrightarrow> snapshot_ok e \<Longrightarrow> row_within (row_written w e r)"
  by (auto simp: row_within_def snapshot_ok_def row_written_def to_number_def
      split: option.splits sync_status.splits)

lemma snapshot_ok_pendingEntries:
  assumes "\<forall>r \<in> set (cache d). row_within r" and "e \<in> set (pendingEntries d)"
  shows "snapshot_ok e"
proof -
  have "e \<in> set (cache d)" using assms(2) pendingEntries_subset by blast
  then have "row_within e" using assms(1) by blast
  then show ?thesis
    using pendingEntries_pending[OF assms(2)]
    by (auto simp: row_within_def snapshot_ok_def split: option.splits)
qed

lemma runs_within_enqueue:
  assumes "runs_within d runs" and "cacheAppointment JSON_stringify t i p d = Inr d'"
  shows "runs_within d' runs"
proof -
  obtain row where "cache d' = cache d @ [row]" and "row_within row"
    using assms(2)
    by (auto simp: cacheAppointment_def row_within_def split: option.splits if_splits)
  then show ?thesis using assms(1) by (auto simp: runs_within_def)
qed

lemma runs_within_step:
  assumes "runs_within d (earlier @ (e # todo) # later)"
  shows "runs_within (syncSingleAppointment w e d) (earlier @ todo # later)"
proof -
  have e_ok: "snapshot_ok e" using assms by (simp add: runs_within_def)
  have rows: "\<And>r. r \<in> set (cache d) \<Longrightarrow> row_within r"
    using assms by (simp add: runs_within_def)
  have "\<forall>r \<in> set (cache (syncSingleAppointment w e d)). row_within r"
    unfolding syncSingleAppointment_cache
    using rows e_ok by (auto simp: row_within_row_written)
  moreover have "\<forall>x \<in> set (concat (earlier @ todo # later)). snapshot_ok x"
    using assms by (auto simp: runs_within_def)
  ultimately show ?thesis by (simp add: runs_within_def)
qed

lemma runs_within_reset: "runs_within d runs \<Longrightarrow> runs_within (retryFailedSyncs d) runs"
  by (auto simp: runs_within_def retryFailedSyncs_def row_within_def
      split: option.splits sync_status.splits)

lemma reachable_runs_within:
  "reachable overlap JSON_stringify s \<Longrightarrow> runs_within (fst s) (snd s)"
proof (induction rule: reachable.induct)
  case start
  show ?case by (simp add: runs_within_def empty_db_def)
next
  case (primary d runs)
  then show ?case by (simp add: runs_within_def insertAppointment_def Let_def)
next
  case (enqueue d runs t i p d')
  then show ?case using runs_within_enqueue by fastforce
next
  case (select d runs)
  then show ?case
    using snapshot_ok_pendingEntries[of d] by (auto simp: runs_within_def)
next
  case (step d earlier entry todo later w)
  then show ?case by (simp add: runs_within_step)
next
  case (reset d runs)
  then show ?case by (simp add: runs_within_reset)
qed

text \<open>A whole run of \<^verbatim>\<open>syncPendingAppointments\<close> is a select followed by its steps.\<close>

lemma reachable_for_entries:
  fixes JSON_stringify :: "'p \<Rightarrow> string option"
    and world :: "appointmentCache \<Rightarrow> 'p attempt"
  shows "reachable overlap JSON_stringify (d, todo # runs) \<Longrightarrow>
         reachable overlap JSON_stringify (for_entries world todo d, [] # runs)"
proof (induction todo arbitrary: d)
  case Nil
  then show ?case by simp
next
  case (Cons e todo)
  have "reachable overlap JSON_stringify (d, [] @ (e # todo) # runs)"
    using Cons.prems by simp
  then have "reachable overlap JSON_stringify
               (syncSingleAppointment (world e) e d, [] @ todo # runs)"
    by (rule reachable.step)
  then show ?case using Cons.IH by simp
qed

lemma reachable_cycle:
  fixes JSON_stringify :: "'p \<Rightarrow> string option"
    and world :: "appointmentCache \<Rightarrow> 'p attempt"
  assumes "reachable overlap JSON_stringify (d, runs)" and "overlap \<or> concat runs = []"
  shows "reachable overlap JSON_stringify (syncPendingAppointments world d, [] # runs)"
proof -
  have "syncPendingAppointments world d = for_entries world (pendingEntries d) d"
    by (cases "pendingEntries d") (simp_all add: syncPendingAppointments_def Let_def)
  then show ?thesis
    using reachable_for_entries[OF reachable.select[OF assms], of world] by simp
qed

lemma reachable_booked: "reachable overlap Some (booked, [])"
proof -
  have r1: "reachable overlap Some (snd (insertAppointment empty_db), [])"
    by (rule reachable.primary[OF reachable.start])
  have e: "cacheAppointment Some 0 1 ''{}'' (snd (insertAppointment empty_db)) = Inr booked"
    by (simp add: cacheAppointment_def insertAppointment_def empty_db_def booked_def Let_def)
  show ?thesis by (rule reachable.enqueue[OF r1 e])
qed

lemma failing_cycle:
  assumes "cache d = [failed_so_far n]" and "n + 1 < 5"
  shows "cache (syncPendingAppointments always_failing d) = [failed_so_far (n + 1)]"
proof -
  have "pendingEntries d = [failed_so_far n]"
    using assms(1) by (simp add: pendingEntries_def failed_so_far_def sample_row_def)
  then show ?thesis
    using assms
    by (simp add: syncPendingAppointments_def syncSingleAppointment_def try_block_def
        catch_block_def always_failing_def failing_attempt_def
        IntakeQService_createAppointment_def refusing_def update_cache_where_id_def
        to_number_def message_or_unknown_def failed_so_far_def sample_row_def)
qed

lemma first_failing_cycle:
  "cache (syncPendingAppointments always_failing booked) = [failed_so_far 1]"
  by (simp add: booked_def pendingEntries_def syncPendingAppointments_def
      syncSingleAppointment_def try_block_def catch_block_def always_failing_def
      failing_attempt_def IntakeQService_createAppointment_def refusing_def
      update_cache_where_id_def to_number_def message_or_unknown_def failed_so_far_def
      sample_row_def)

lemma cache_three_failures: "cache three_failures = [failed_so_far 3]"
  unfolding three_failures_def
  using failing_cycle[OF failing_cycle[OF first_failing_cycle]] by simp

lemma reachable_three_failures: "reachable overlap Some (three_failures, [[], [], []])"
  unfolding three_failures_def
  by (intro reachable_cycle reachable_booked) simp_all

lemma failing_step:
  assumes "cache d = [r]" and "cache_id r = 1"
  shows "cache (syncSingleAppointment (failing_attempt 100) (failed_so_far n) d) =
           [if n + 1 \<ge> 5
            then r\<lparr>syncStatus := Some Failed, retryCount := Some (n + 1),
                   lastSyncAttempt := Some 100,
                   errorMessage := Some ''Failed to create appointment in IntakeQ''\<rparr>
            else r\<lparr>retryCount := Some (n + 1), lastSyncAttempt := Some 100,
                   errorMessage := Some ''Failed to create appointment in IntakeQ''\<rparr>]"
  using assms
  by (simp add: syncSingleAppointment_def try_block_def catch_block_def failing_attempt_def
      IntakeQService_createAppointment_def refusing_def update_cache_where_id_def
      to_number_def message_or_unknown_def failed_so_far_def sample_row_def)

lemma cache_overlapped:
  "cache overlapped =
     [(failed_so_far 4)\<lparr>syncStatus := Some Failed\<rparr>]"
proof -
  let ?d1 = "syncSingleAppointment (failing_attempt 100) (failed_so_far 3) three_failures"
  let ?d2 = "syncSingleAppointment (failing_attempt 100) (failed_so_far 4) ?d1"
  have c1: "cache ?d1 = [failed_so_far 4]"
    using failing_step[OF cache_three_failures, of 3]
    by (simp add: failed_so_far_def sample_row_def)
  have c2: "cache ?d2 = [(failed_so_far 5)\<lparr>syncStatus := Some Failed\<rparr>]"
    using failing_step[OF c1, of 4] by (simp add: failed_so_far_def sample_row_def)
  show ?thesis
    unfolding overlapped_def
    using failing_step[OF c2, of 3] by (simp add: failed_so_far_def sample_row_def)
qed

lemma reachable_overlapped: "reachable True Some (overlapped, [[], [], [], [], [], []])"
proof -
  let ?fa = "failing_attempt 100"
  let ?d1 = "syncSingleAppointment ?fa (failed_so_far 3) three_failures"
  let ?d2 = "syncSingleAppointment ?fa (failed_so_far 4) ?d1"
  let ?done = "[[], [], []] :: appointmentCache list list"
  have p0: "pendingEntries three_failures = [failed_so_far 3]"
    using cache_three_failures
    by (simp add: pendingEntries_def failed_so_far_def sample_row_def)
  have c1: "cache ?d1 = [failed_so_far 4]"
    using failing_step[OF cache_three_failures, of 3]
    by (simp add: failed_so_far_def sample_row_def)
  have p1: "pendingEntries ?d1 = [failed_so_far 4]"
    using c1 by (simp add: pendingEntries_def failed_so_far_def sample_row_def)
  have a: "reachable True Some (three_failures, [failed_so_far 3] # ?done)"
    using reachable.select[OF reachable_three_failures[of True]] p0 by simp
  have b: "reachable True Some (three_failures, [failed_so_far 3] # [failed_so_far 3] # ?done)"
    using reachable.select[OF a] p0 by simp
  have b1: "reachable True Some (?d1, [] # [failed_so_far 3] # ?done)"
    using reachable.step[of True Some three_failures "[]" "failed_so_far 3" "[]"
        "[failed_so_far 3] # ?done" ?fa] b by simp
  have c: "reachable True Some (?d1, [failed_so_far 4] # [] # [failed_so_far 3] # ?done)"
    using reachable.select[OF b1] p1 by simp
  have c': "reachable True Some (?d2, [] # [] # [failed_so_far 3] # ?done)"
    using reachable.step[of True Some ?d1 "[]" "failed_so_far 4" "[]"
        "[] # [failed_so_far 3] # ?done" ?fa] c by simp
  have "reachable True Some
          (syncSingleAppointment ?fa (failed_so_far 3) ?d2, [[], []] @ [] # ?done)"
    using reachable.step[of True Some ?d2 "[[], []]" "failed_so_far 3" "[]" ?done ?fa] c'
    by simp
  then show ?thesis by (simp add: overlapped_def)
qed

text \<open>
  Claim C5 as stated does not hold. The timer starts a third run while the first is still
  waiting for the downstream client; the task fails for the fifth time in the third run
  and becomes \<^verbatim>\<open>failed\<close> with count 5, and then the first run fails with the entry it
  read when the count was 3: it writes count 4 and leaves the status alone. The task is
  \<^verbatim>\<open>failed\<close> with \<^verbatim>\<open>retryCount\<close> 4.
\<close>

theorem failed_with_four_attempts_counterexample:
  "reachable True Some (overlapped, [[], [], [], [], [], []])
   \<and> map syncStatus (cache overlapped) = [Some Failed]
   \<and> map retryCount (cache overlapped) = [Some 4]"
  using reachable_overlapped
  by (simp add: cache_overlapped failed_so_far_def sample_row_def)

text \<open>
  Claim C5, amended. In every state reached from the empty store by bookings, enqueues,
  steps of worker runs and administrative resets, a task whose status is \<^verbatim>\<open>failed\<close>
  has a \<^verbatim>\<open>retryCount\<close> between 1 and 5; and when no run starts before the earlier
  runs have processed all their entries, its \<^verbatim>\<open>retryCount\<close> is exactly 5.
\<close>

theorem failed_attempts_bounded_and_exact_without_overlap:
  assumes "reachable overlap JSON_stringify (d, runs)"
  shows "\<forall>r \<in> set (cache d). syncStatus r = Some Failed \<longrightarrow>
           (\<exists>n. retryCount r = Some n \<and> 1 \<le> n \<and> n \<le> 5) \<and>
           (\<not> overlap \<longrightarrow> retryCount r = Some 5)"
proof (intro ballI impI conjI)
  fix r
  assume r: "r \<in> set (cache d)" and f: "syncStatus r = Some Failed"
  have "runs_within d runs" using reachable_runs_within[OF assms] by simp
  then have "row_within r" using r by (simp add: runs_within_def)
  then show "\<exists>n. retryCount r = Some n \<and> 1 \<le> n \<and> n \<le> 5"
    using f by (auto simp: row_within_def split: option.splits)
next
  fix r
  assume r: "r \<in> set (cache d)" and f: "syncStatus r = Some Failed" and "\<not> overlap"
  then have "cycle_ok d (concat runs)" using reachable_cycle_ok[OF assms] by simp
  then have "row_ok r" using r by (simp add: cycle_ok_def store_ok_def)
  then show "retryCount r = Some 5" using f by (simp add: row_ok_def)
qed

text \<open>
  One booking followed by five runs, one after the other, during which the endpoint is
  down.
\<close>

lemma reachable_exhausted: "reachable False Some (exhausted, [[], [], [], [], []])"
  unfolding exhausted_def
  by (intro reachable_cycle reachable_booked) simp_all

lemma cache_exhausted:
  "cache exhausted =
     [\<lparr>cache_id = 1, appointmentId = 1, syncStatus = Some Failed, retryCount = Some 5,
       lastSyncAttempt = Some 100,
       errorMessage = Some ''Failed to create appointment in IntakeQ'',
       payload = ''{}'', createdAt = Some 0, syncedAt = None\<rparr>]"
  by (simp add: exhausted_def booked_def pendingEntries_def
        syncPendingAppointments_def syncSingleAppointment_def try_block_def catch_block_def
        always_failing_def failing_attempt_def IntakeQService_createAppointment_def refusing_def
        update_cache_where_id_def to_number_def message_or_unknown_def)

theorem failed_attempts_bounded_and_exact_without_overlap_witness:
  "reachable False Some (exhausted, [[], [], [], [], []])
   \<and> map syncStatus (cache exhausted) = [Some Failed]
   \<and> map retryCount (cache exhausted) = [Some 5]"
  using failed_attempts_bounded_and_exact_without_overlap[OF reachable_exhausted]
    reachable_exhausted
  by (simp add: cache_exhausted)

end
